theory Spec2Isabelle
  imports Complex_Main
begin

section \<open>Strings: \<open>split(" ")\<close> and \<open>join(" ")\<close>\<close>

text \<open>
  JavaScript strings are modelled as \<open>string\<close> (a list of characters); no function below
  looks inside a character other than to compare it with the space.
  \<open>split_sp s\<close> is \<open>s.split(" ")\<close>: the pieces of \<open>s\<close> between single spaces, empty
  pieces included, so the result is never empty and \<open>"".split(" ")\<close> is \<open>[""]\<close>.
  \<open>join_sp ws\<close> is \<open>ws.join(" ")\<close>; the join of the empty array is the empty string.
\<close>

fun split_sp :: "string \<Rightarrow> string list" where
  "split_sp [] = [[]]"
| "split_sp (c # cs) =
     (if c = CHR '' '' then [] # split_sp cs
      else (c # hd (split_sp cs)) # tl (split_sp cs))"

fun join_sp :: "string list \<Rightarrow> string" where
  "join_sp [] = []"
| "join_sp [w] = w"
| "join_sp (w # v # ws) = w @ CHR '' '' # join_sp (v # ws)"

text \<open>
  The words of a text in the everyday sense: the non-empty pieces between spaces.
\<close>

definition words_of :: "string \<Rightarrow> string list" where
  "words_of s = filter (\<lambda>w. w \<noteq> []) (split_sp s)"

section \<open>Data model (\<open>types.ts\<close> and the fields of class \<open>TextOnGif\<close>)\<close>

text \<open>
  JavaScript numbers are idealised as reals. The unions of string literals
  \<open>AlignmentXOptions\<close> and \<open>AlignmentYOptions\<close> are datatypes; \<open>CanvasTextAlign\<close> and
  \<open>CanvasTextBaseline\<close> stay strings. A field that would clash with another record's field
  or with a variable name carries a prefix (\<open>row_text\<close> for \<open>Row.text\<close>, \<open>canvas_x\<close> for
  \<open>CanvasOptions.x\<close>, and so on).
\<close>

datatype alignmentXOptions = XLeft | XCenter | XRight

datatype alignmentYOptions = YTop | YMiddle | YBottom

record textOptions =
  fontSize :: string
  fontFamily :: string
  fontColor :: string
  strokeColor :: string
  strokeWidth :: real
  alignmentX :: alignmentXOptions
  alignmentY :: alignmentYOptions
  positionX :: "real option"
  positionY :: "real option"
  offsetX :: real
  offsetY :: real
  rowGap :: real
  repeat :: real
  retain :: bool
  transparent :: bool

record canvasOptions =
  canvas_x :: real
  canvas_y :: real
  canvas_textAlign :: string
  canvas_textBaseline :: string

record row =
  row_text :: string

section \<open>The drawing surface (package \<open>canvas\<close>)\<close>

text \<open>
  The 2D context is an external library. Its pixels are represented by the paint log: the
  drawing calls made since the surface was last blank, each text call with the style
  fields of the context at the moment of the call. Two surfaces with the same log
  hold the same pixels. \<open>getImageData(0, 0, width, height)\<close> copies the whole surface,
  \<open>putImageData(d, 0, 0)\<close> replaces the whole surface by the copy \<open>d\<close>, and
  \<open>clearRect(0, 0, width, height)\<close> makes it blank.
\<close>

record style =
  strokeStyle :: string
  lineWidth :: real
  font :: string
  fillStyle :: string
  textAlign :: string
  textBaseline :: string

datatype paint =
    DrawImage nat
  | StrokeText string real real style
  | FillText string real real style

type_synonym pixels = "paint list"

text \<open>
  \<open>ExtractedFrame.imageData\<close> has type \<open>any\<close>: extraction stores an \<open>Image\<close> there
  (its decoded pixels are named by a number; \<open>complete\<close> tells whether the picture could
  be loaded), and the retain write-back stores an \<open>ImageData\<close> copy of the surface.
\<close>

datatype imageData =
    Image nat bool
  | ImageData pixels

record context2d = style +
  surface :: pixels

text \<open>
  \<open>createCanvas(width, height).getContext("2d")\<close>: a blank surface and the default
  style of a 2D context.
\<close>

definition createCanvas :: "real \<Rightarrow> real \<Rightarrow> context2d" where
  "createCanvas w h =
     \<lparr> strokeStyle = ''#000000'', lineWidth = 1, font = ''10px sans-serif'',
       fillStyle = ''#000000'', textAlign = ''start'', textBaseline = ''alphabetic'',
       surface = [] \<rparr>"

text \<open>
  \<open>measureText(s).width\<close> depends on the font files installed: the width function is a
  parameter \<open>m\<close> of everything that measures, applied to the context's font and the text.
\<close>

type_synonym metrics = "string \<Rightarrow> string \<Rightarrow> real"

definition measureText :: "metrics \<Rightarrow> context2d \<Rightarrow> string \<Rightarrow> real" where
  "measureText m c s = m (font c) s"

text \<open>
  \<open>drawImage\<close> throws (\<open>None\<close>) when it is given an image that did not load or an object
  that is no image; \<open>putImageData\<close> throws when it is given anything but an \<open>ImageData\<close>.
\<close>

fun drawImage :: "imageData \<Rightarrow> context2d \<Rightarrow> context2d option" where
  "drawImage (Image p ok) c =
     (if ok then Some (c\<lparr>surface := surface c @ [DrawImage p]\<rparr>) else None)"
| "drawImage (ImageData d) c = None"

fun putImageData :: "imageData \<Rightarrow> context2d \<Rightarrow> context2d option" where
  "putImageData (ImageData d) c = Some (c\<lparr>surface := d\<rparr>)"
| "putImageData (Image p ok) c = None"

definition getImageData :: "context2d \<Rightarrow> imageData" where
  "getImageData c = ImageData (surface c)"

definition clearRect :: "context2d \<Rightarrow> context2d" where
  "clearRect c = c\<lparr>surface := []\<rparr>"

definition strokeText :: "string \<Rightarrow> real \<Rightarrow> real \<Rightarrow> context2d \<Rightarrow> context2d" where
  "strokeText s px py c = c\<lparr>surface := surface c @ [StrokeText s px py (style.truncate c)]\<rparr>"

definition fillText :: "string \<Rightarrow> real \<Rightarrow> real \<Rightarrow> context2d \<Rightarrow> context2d" where
  "fillText s px py c = c\<lparr>surface := surface c @ [FillText s px py (style.truncate c)]\<rparr>"

section \<open>The encoder (package \<open>gif-encoder-2\<close>)\<close>

text \<open>
  The encoder is external too. It is represented by its constructor arguments and the log
  of the calls made on it; \<open>addFrame(ctx)\<close> reads the pixels of the surface at the call.
  What \<open>encoder.out.getData()\<close> yields for a log is a parameter \<open>g\<close> of the functions that
  read it; its result has the type of the field \<open>buffer\<close> it is stored in, \<open>Buffer | null\<close>,
  with \<open>None\<close> for \<open>null\<close>.
\<close>

datatype encoderCall =
    SetTransparent bool
  | SetRepeat real
  | Start
  | SetDelay real
  | SetDispose nat
  | AddFrame pixels
  | Finish

record encoder =
  enc_width :: real
  enc_height :: real
  enc_algorithm :: string
  enc_useOptimizer :: bool
  enc_totalFrames :: nat
  calls :: "encoderCall list"

type_synonym buffer = "nat list"

type_synonym getData = "encoder \<Rightarrow> buffer option"

definition GIFEncoder :: "real \<Rightarrow> real \<Rightarrow> string \<Rightarrow> bool \<Rightarrow> nat \<Rightarrow> encoder" where
  "GIFEncoder w h algo opt n =
     \<lparr> enc_width = w, enc_height = h, enc_algorithm = algo, enc_useOptimizer = opt,
       enc_totalFrames = n, calls = [] \<rparr>"

definition call :: "encoderCall \<Rightarrow> encoder \<Rightarrow> encoder" where
  "call k e = e\<lparr>calls := calls e @ [k]\<rparr>"

section \<open>The instance\<close>

record extractedFrame =
  imageData :: imageData
  delay :: real
  disposal :: nat

datatype event =
    FrameIndexUpdate nat
  | Finished

text \<open>
  The fields of a \<open>TextOnGif\<close> instance (\<open>gif_text\<close> is the field \<open>text\<close>), with what the
  instance has emitted, what it has written to \<open>console.error\<close>, and the files it has
  written.
\<close>

record textOnGif =
  numberOfFrames :: nat
  retained :: bool
  extractedFrames :: "extractedFrame list"
  width :: real
  height :: real
  gif_text :: string
  textOptions :: textOptions
  buffer :: "buffer option"
  canvasOptions :: canvasOptions
  rows :: "row list"
  emitted :: "event list"
  console :: "string list"
  files :: "string \<Rightarrow> buffer option"

datatype error =
    TypeError
  | ResultEmpty

definition emit :: "event \<Rightarrow> textOnGif \<Rightarrow> textOnGif" where
  "emit e t = t\<lparr>emitted := emitted t @ [e]\<rparr>"

section \<open>\<open>createTextRows\<close>\<close>

text \<open>
  The loop of \<open>createTextRows\<close> over the words still to come, with \<open>this.rows\<close>,
  \<open>previewText\<close> and \<open>lineText\<close> as accumulators; after the last word the line in hand
  is pushed as a row. The rows are pushed onto \<open>this.rows\<close> as it stands at the call.
\<close>

fun wrapWords ::
  "metrics \<Rightarrow> context2d \<Rightarrow> real \<Rightarrow> string list \<Rightarrow> row list \<Rightarrow> string list \<Rightarrow> string list
     \<Rightarrow> row list" where
  "wrapWords m c w [] rs previewText lineText = rs @ [\<lparr>row_text = join_sp lineText\<rparr>]"
| "wrapWords m c w (word # ws) rs previewText lineText =
     (if measureText m c (join_sp (previewText @ [word])) > w
      then wrapWords m c w ws (rs @ [\<lparr>row_text = join_sp lineText\<rparr>]) [word] [word]
      else wrapWords m c w ws rs (previewText @ [word]) (lineText @ [word]))"

definition createTextRows :: "metrics \<Rightarrow> context2d \<Rightarrow> textOnGif \<Rightarrow> textOnGif" where
  "createTextRows m c t =
     t\<lparr>rows := wrapWords m c (width t) (split_sp (gif_text t)) (rows t) [] []\<rparr>"

section \<open>\<open>#renderGIF\<close>\<close>

text \<open>
  The local variables of \<open>#renderGIF\<close> that change while it runs, with the instance.
\<close>

record locals =
  inst :: textOnGif
  ctx :: context2d
  enc :: encoder

subsection \<open>The anchor (lines 283 to 342)\<close>

definition alignX :: "textOnGif \<Rightarrow> textOnGif" where
  "alignX t =
     (let opts = textOptions t; co = canvasOptions t in
      case positionX opts of
        Some px \<Rightarrow> t\<lparr>canvasOptions := co\<lparr>canvas_textAlign := ''start'', canvas_x := px\<rparr>\<rparr>
      | None \<Rightarrow>
         (case alignmentX opts of
            XRight \<Rightarrow>
              t\<lparr>canvasOptions := co\<lparr>canvas_textAlign := ''right'',
                                      canvas_x := width t - offsetX opts\<rparr>\<rparr>
          | XLeft \<Rightarrow>
              t\<lparr>canvasOptions := co\<lparr>canvas_textAlign := ''left'', canvas_x := offsetX opts\<rparr>\<rparr>
          | XCenter \<Rightarrow>
              t\<lparr>canvasOptions := co\<lparr>canvas_textAlign := ''center'',
                                      canvas_x := width t / 2\<rparr>\<rparr>))"

definition alignY :: "real \<Rightarrow> textOnGif \<Rightarrow> textOnGif" where
  "alignY approximateLineHeight t =
     (let opts = textOptions t; co = canvasOptions t; n = real (length (rows t)) in
      case positionY opts of
        Some py \<Rightarrow> t\<lparr>canvasOptions := co\<lparr>canvas_textBaseline := ''top'', canvas_y := py\<rparr>\<rparr>
      | None \<Rightarrow>
         (if length (rows t) = 1 then
            (case alignmentY opts of
               YTop \<Rightarrow>
                 t\<lparr>canvasOptions := co\<lparr>canvas_textBaseline := ''hanging'',
                                         canvas_y := offsetY opts\<rparr>\<rparr>
             | YMiddle \<Rightarrow>
                 t\<lparr>canvasOptions := co\<lparr>canvas_textBaseline := ''middle'',
                                         canvas_y := height t / 2\<rparr>\<rparr>
             | YBottom \<Rightarrow>
                 t\<lparr>canvasOptions := co\<lparr>canvas_textBaseline := ''bottom'',
                                         canvas_y := height t - offsetY opts\<rparr>\<rparr>)
          else
            (case alignmentY opts of
               YTop \<Rightarrow>
                 t\<lparr>canvasOptions := co\<lparr>canvas_textBaseline := ''hanging'',
                                         canvas_y := offsetY opts\<rparr>\<rparr>
             | YMiddle \<Rightarrow>
                 t\<lparr>canvasOptions := co\<lparr>canvas_textBaseline := ''top'',
                        canvas_y :=
                          (height t - (n * approximateLineHeight + (n - 1) * rowGap opts)) / 2\<rparr>\<rparr>
             | YBottom \<Rightarrow>
                 t\<lparr>canvasOptions := co\<lparr>canvas_textBaseline := ''bottom'',
                        canvas_y :=
                          height t
                            - ((n - 1) * (approximateLineHeight + rowGap opts)
                               + offsetY opts)\<rparr>\<rparr>)))"

subsection \<open>The body of the frame loop (lines 345 to 403)\<close>

text \<open>
  Lines 347 to 356: the \<open>try\<close> around the painting of the frame's stored picture. The
  \<open>catch\<close> block is empty, so a throw leaves every variable as it was.
\<close>

definition paintFrame :: "nat \<Rightarrow> locals \<Rightarrow> locals" where
  "paintFrame index L =
     (let d = imageData (extractedFrames (inst L) ! index) in
      case (if \<not> retained (inst L) then drawImage d (ctx L) else putImageData d (ctx L)) of
        Some c \<Rightarrow> L\<lparr>ctx := c\<rparr>
      | None \<Rightarrow> L)"

text \<open>Lines 358 to 363.\<close>

definition setStyles :: "locals \<Rightarrow> locals" where
  "setStyles L =
     (let opts = textOptions (inst L); co = canvasOptions (inst L) in
      L\<lparr>ctx := (ctx L)\<lparr>strokeStyle := strokeColor opts,
                         lineWidth := strokeWidth opts,
                         font := fontSize opts @ '' '' @ fontFamily opts,
                         fillStyle := fontColor opts,
                         textAlign := canvas_textAlign co,
                         textBaseline := canvas_textBaseline co\<rparr>\<rparr>)"

text \<open>Line 367.\<close>

definition ensureRows :: "metrics \<Rightarrow> locals \<Rightarrow> locals" where
  "ensureRows m L =
     (if length (rows (inst L)) = 0 then L\<lparr>inst := createTextRows m (ctx L) (inst L)\<rparr> else L)"

text \<open>
  Lines 365 to 371: \<open>withoutText\<close> is declared without a value (\<open>None\<close>) and assigned
  under the test of the disposal method.
\<close>

definition withoutText :: "nat \<Rightarrow> locals \<Rightarrow> imageData option" where
  "withoutText index L =
     (if disposal (extractedFrames (inst L) ! index) \<noteq> 2 then Some (getImageData (ctx L))
      else None)"

text \<open>
  Lines 373 to 385: the text of the instance when there is one row, otherwise the rows in
  reverse, one \<open>rowIndex\<close> after the other.
\<close>

definition drawRow :: "real \<Rightarrow> textOnGif \<Rightarrow> context2d \<Rightarrow> nat \<Rightarrow> context2d" where
  "drawRow approximateLineHeight t c rowIndex =
     (let reverseRows = rev (rows t);
          lineText = row_text (reverseRows ! rowIndex);
          px = canvas_x (canvasOptions t);
          py = canvas_y (canvasOptions t)
                 - real rowIndex * (approximateLineHeight + rowGap (textOptions t))
      in fillText lineText px py (strokeText lineText px py c))"

definition drawText :: "real \<Rightarrow> locals \<Rightarrow> locals" where
  "drawText approximateLineHeight L =
     (let t = inst L; px = canvas_x (canvasOptions t); py = canvas_y (canvasOptions t) in
      if length (rows t) = 1
      then L\<lparr>ctx := fillText (gif_text t) px py (strokeText (gif_text t) px py (ctx L))\<rparr>
      else L\<lparr>ctx := foldl (drawRow approximateLineHeight t) (ctx L) [0..<length (rows t)]\<rparr>)"

text \<open>Lines 387 to 389.\<close>

definition commitFrame :: "nat \<Rightarrow> locals \<Rightarrow> locals" where
  "commitFrame index L =
     (let f = extractedFrames (inst L) ! index in
      L\<lparr>enc := call (AddFrame (surface (ctx L)))
                  (call (SetDispose (disposal f)) (call (SetDelay (delay f)) (enc L)))\<rparr>)"

text \<open>Lines 391 to 397.\<close>

definition retainWriteback :: "nat \<Rightarrow> locals \<Rightarrow> locals" where
  "retainWriteback index L =
     (let t = inst L; fs = extractedFrames t in
      if retain (textOptions t)
      then L\<lparr>inst := t\<lparr>extractedFrames :=
                           fs[index := (fs ! index)\<lparr>imageData := getImageData (ctx L)\<rparr>]\<rparr>\<rparr>
      else L)"

text \<open>
  Lines 399 to 403. The \<open>!\<close> of \<open>withoutText!\<close> is erased by the compiler: with no value
  assigned, \<open>putImageData\<close> is called with \<open>undefined\<close> and throws.
\<close>

definition restoreBackground :: "nat \<Rightarrow> imageData option \<Rightarrow> locals \<Rightarrow> error + locals" where
  "restoreBackground index wt L =
     (if disposal (extractedFrames (inst L) ! index) = 2
      then Inr (L\<lparr>ctx := clearRect (ctx L)\<rparr>)
      else (case wt of
              None \<Rightarrow> Inl TypeError
            | Some d \<Rightarrow>
               (case putImageData d (ctx L) of
                  None \<Rightarrow> Inl TypeError
                | Some c \<Rightarrow> Inr (L\<lparr>ctx := c\<rparr>))))"

text \<open>
  The state of the iteration at line 369, where the snapshot is taken: the frame painted,
  the styles set, the rows there.
\<close>

definition beforeText :: "metrics \<Rightarrow> nat \<Rightarrow> locals \<Rightarrow> locals" where
  "beforeText m index L =
     ensureRows m (setStyles (paintFrame index (L\<lparr>inst := emit (FrameIndexUpdate index) (inst L)\<rparr>)))"

definition frameBody :: "metrics \<Rightarrow> real \<Rightarrow> nat \<Rightarrow> locals \<Rightarrow> error + locals" where
  "frameBody m approximateLineHeight index L =
     (let L1 = beforeText m index L;
          wt = withoutText index L1;
          L2 = retainWriteback index (commitFrame index (drawText approximateLineHeight L1))
      in restoreBackground index wt L2)"

subsection \<open>The frame loop (lines 344 to 404)\<close>

text \<open>
  The loop tests \<open>index\<close> against the length of the frame store at every turn. No step
  of the body changes that length, which is why the loop ends.
\<close>

lemma frames_beforeText [simp]:
  "extractedFrames (inst (beforeText m index L)) = extractedFrames (inst L)"
  by (simp add: beforeText_def ensureRows_def setStyles_def paintFrame_def Let_def
        createTextRows_def emit_def split: option.split)

lemma frames_drawText [simp]:
  "extractedFrames (inst (drawText lh L)) = extractedFrames (inst L)"
  by (simp add: drawText_def Let_def)

lemma frames_commitFrame [simp]:
  "extractedFrames (inst (commitFrame index L)) = extractedFrames (inst L)"
  by (simp add: commitFrame_def Let_def)

lemma length_frames_retainWriteback [simp]:
  "length (extractedFrames (inst (retainWriteback index L))) = length (extractedFrames (inst L))"
  by (simp add: retainWriteback_def Let_def)

lemma inst_restoreBackground:
  "restoreBackground index wt L = Inr L' \<Longrightarrow> inst L' = inst L"
  by (auto simp: restoreBackground_def split: if_splits option.splits)

lemma frameBody_frames_length:
  "frameBody m lh index L = Inr L' \<Longrightarrow>
     length (extractedFrames (inst L')) = length (extractedFrames (inst L))"
  by (auto simp: frameBody_def Let_def dest!: inst_restoreBackground)

function frameLoop :: "metrics \<Rightarrow> real \<Rightarrow> nat \<Rightarrow> locals \<Rightarrow> error + locals" where
  "frameLoop m approximateLineHeight index L =
     (if index < length (extractedFrames (inst L))
      then (case frameBody m approximateLineHeight index L of
              Inl e \<Rightarrow> Inl e
            | Inr L' \<Rightarrow> frameLoop m approximateLineHeight (index + 1) L')
      else Inr L)"
  by pat_completeness auto
termination
  by (relation "measure (\<lambda>(m, lh, index, L). length (extractedFrames (inst L)) - index)")
     (auto simp: frameBody_frames_length)

declare frameLoop.simps [simp del]

subsection \<open>The whole of \<open>#renderGIF\<close>, \<open>toBuffer\<close> and \<open>toFile\<close>\<close>

text \<open>
  Lines 256 to 342: the encoder and the canvas are made, the rows are laid out and the
  anchor is computed. The result is \<open>approximateLineHeight\<close> with the variables the loop
  starts from. (The handler registered with \<open>encoder.on("progress", ...)\<close> forwards what
  the encoder reports while it works; the encoder's own events are not part of the model.)
\<close>

definition startRender :: "metrics \<Rightarrow> textOnGif \<Rightarrow> real \<times> locals" where
  "startRender m t =
     (let opts = textOptions t;
          encoder0 = GIFEncoder (width t) (height t) ''neuquant'' False
                       (length (extractedFrames t));
          encoder1 = (if transparent opts then call (SetTransparent True) encoder0
                      else encoder0);
          encoder2 = call (SetRepeat (repeat opts)) encoder1;
          c = (createCanvas (width t) (height t))\<lparr>font := fontSize opts @ '' '' @ fontFamily opts\<rparr>;
          encoder3 = call Start encoder2;
          approximateLineHeight = measureText m c ''M'';
          t1 = createTextRows m c t;
          t2 = alignY approximateLineHeight (alignX t1)
      in (approximateLineHeight, \<lparr>inst = t2, ctx = c, enc = encoder3\<rparr>))"

text \<open>Lines 256 to 406: everything up to and with \<open>encoder.finish()\<close>.\<close>

definition encodeFrames :: "metrics \<Rightarrow> textOnGif \<Rightarrow> error + locals" where
  "encodeFrames m t =
     (case startRender m t of
        (approximateLineHeight, L) \<Rightarrow>
          (case frameLoop m approximateLineHeight 0 L of
             Inl e \<Rightarrow> Inl e
           | Inr L' \<Rightarrow> Inr (L'\<lparr>enc := call Finish (enc L')\<rparr>)))"

definition renderGIF :: "metrics \<Rightarrow> getData \<Rightarrow> textOnGif \<Rightarrow> error + textOnGif" where
  "renderGIF m g t =
     (case encodeFrames m t of
        Inl e \<Rightarrow> Inl e
      | Inr L \<Rightarrow> Inr (emit Finished ((inst L)\<lparr>buffer := g (enc L)\<rparr>)))"

text \<open>
  \<open>toFile\<close> tests \<open>this.buffer\<close> for truthiness: a \<open>Buffer\<close> object is truthy whatever its
  length, \<open>null\<close> is not. \<open>toBuffer\<close> returns the field as it is. (The write to the file
  system is taken to succeed.)
\<close>

definition toFile ::
  "metrics \<Rightarrow> getData \<Rightarrow> string \<Rightarrow> textOnGif \<Rightarrow> error + (bool \<times> textOnGif)" where
  "toFile m g filePath t =
     (case renderGIF m g t of
        Inl e \<Rightarrow> Inl e
      | Inr t' \<Rightarrow>
         (case buffer t' of
            Some b \<Rightarrow> Inr (True, t'\<lparr>files := (files t')(filePath \<mapsto> b)\<rparr>)
          | None \<Rightarrow> Inl ResultEmpty))"

definition toBuffer ::
  "metrics \<Rightarrow> getData \<Rightarrow> textOnGif \<Rightarrow> error + (buffer option \<times> textOnGif)" where
  "toBuffer m g t =
     (case renderGIF m g t of
        Inl e \<Rightarrow> Inl e
      | Inr t' \<Rightarrow> Inr (buffer t', t'))"

section \<open>What a render is seen to do\<close>

text \<open>
  The paint calls that the text step of lines 373 to 385 adds to the surface.
\<close>

definition drawnText :: "real \<Rightarrow> locals \<Rightarrow> pixels" where
  "drawnText lh L = drop (length (surface (ctx L))) (surface (ctx (drawText lh L)))"

text \<open>The two paint calls for one piece of text, in the style of the context.\<close>

definition rowCalls :: "context2d \<Rightarrow> real \<Rightarrow> string \<times> real \<Rightarrow> paint list" where
  "rowCalls c px =
     (\<lambda>(s, py). [StrokeText s px py (style.truncate c), FillText s px py (style.truncate c)])"



text \<open>A paint call that draws a stored picture, not text.\<close>

fun isPicture :: "paint \<Rightarrow> bool" where
  "isPicture (DrawImage p) = True"
| "isPicture (StrokeText s px py sty) = False"
| "isPicture (FillText s px py sty) = False"

text \<open>The three encoder calls of lines 387 to 389 for a frame and its picture.\<close>

definition frameCalls :: "extractedFrame \<Rightarrow> pixels \<Rightarrow> encoderCall list" where
  "frameCalls f p = [SetDelay (delay f), SetDispose (disposal f), AddFrame p]"

text \<open>The pictures an encoder was given, in the order of the calls.\<close>

definition framesFed :: "encoder \<Rightarrow> pixels list" where
  "framesFed e = concat (map (\<lambda>k. case k of AddFrame p \<Rightarrow> [p] | _ \<Rightarrow> []) (calls e))"

text \<open>
  The encoding of a second output request: \<open>#renderGIF\<close> has run once, and runs again
  on the instance as the first run left it, with the text and the options untouched.
\<close>

definition secondRender :: "metrics \<Rightarrow> getData \<Rightarrow> textOnGif \<Rightarrow> error + locals" where
  "secondRender m g t =
     (case renderGIF m g t of
        Inl e \<Rightarrow> Inl e
      | Inr t1 \<Rightarrow> encodeFrames m t1)"

section \<open>A new instance and a small animation\<close>

text \<open>The initial values of the fields of the class.\<close>

definition defaultTextOptions :: textOptions where
  "defaultTextOptions =
     \<lparr> fontSize = ''32px'', fontFamily = ''calibri'', fontColor = ''white'',
       strokeColor = ''transparent'', strokeWidth = 1, alignmentX = XCenter,
       alignmentY = YBottom, positionX = None, positionY = None, offsetX = 10,
       offsetY = 10, rowGap = 5, repeat = 0, retain = False, transparent = False \<rparr>"

definition newTextOnGif :: textOnGif where
  "newTextOnGif =
     \<lparr> numberOfFrames = 0, retained = False, extractedFrames = [], width = 0, height = 0,
       gif_text = ''Hello World!'', textOptions = defaultTextOptions, buffer = None,
       canvasOptions = \<lparr> canvas_x = 0, canvas_y = 0, canvas_textAlign = ''start'',
                         canvas_textBaseline = ''bottom'' \<rparr>,
       rows = [], emitted = [], console = [], files = (\<lambda>p. None) \<rparr>"

text \<open>
  An instance as \<open>setText\<close> leaves it for an animation of three frames of 100 by 50
  pixels: the text set, no rows, the frames stored. The second frame is restored to the
  background; the picture of the third could not be loaded.
\<close>

definition threeFrames :: "extractedFrame list" where
  "threeFrames =
     [ \<lparr> imageData = Image 0 True, delay = 100, disposal = 1 \<rparr>,
       \<lparr> imageData = Image 1 True, delay = 150, disposal = 2 \<rparr>,
       \<lparr> imageData = Image 2 False, delay = 100, disposal = 1 \<rparr> ]"

definition exampleGif :: "string \<Rightarrow> textOnGif" where
  "exampleGif s =
     newTextOnGif\<lparr> numberOfFrames := 3, extractedFrames := threeFrames, width := 100,
                   height := 50, gif_text := s \<rparr>"

text \<open>A font in which every character is 30 pixels wide, and an encoder that yields data.\<close>

definition wideFont :: metrics where
  "wideFont f s = 30 * real (length s)"

definition someData :: getData where
  "someData e = Some [length (calls e)]"

section \<open>Splitting and joining\<close>

lemma split_sp_not_Nil [simp]: "split_sp s \<noteq> []"
  by (induction s) auto

lemma split_sp_no_space: "w \<in> set (split_sp s) \<Longrightarrow> CHR '' '' \<notin> set w"
proof (induction s arbitrary: w)
  case Nil
  then show ?case by simp
next
  case (Cons c cs)
  have ht: "hd (split_sp cs) \<in> set (split_sp cs)" by simp
  have tl: "\<And>v. v \<in> set (tl (split_sp cs)) \<Longrightarrow> v \<in> set (split_sp cs)"
    by (meson list.set_sel(2) split_sp_not_Nil)
  note h = Cons.IH [OF ht]
  from Cons.prems show ?case
  proof (cases "c = CHR '' ''")
    case True
    with Cons.prems Cons.IH show ?thesis by auto
  next
    case False
    with Cons.prems h show ?thesis by (auto dest: tl Cons.IH)
  qed
qed

lemma split_sp_word: "CHR '' '' \<notin> set w \<Longrightarrow> split_sp w = [w]"
  by (induction w) auto

lemma split_sp_word_space:
  "CHR '' '' \<notin> set w \<Longrightarrow> split_sp (w @ CHR '' '' # s) = w # split_sp s"
  by (induction w) auto

text \<open>Splitting undoes joining, for a non-empty array of pieces without spaces.\<close>

lemma split_sp_join_sp:
  "ws \<noteq> [] \<Longrightarrow> \<forall>w \<in> set ws. CHR '' '' \<notin> set w \<Longrightarrow> split_sp (join_sp ws) = ws"
  by (induction ws rule: join_sp.induct) (auto simp: split_sp_word split_sp_word_space)

lemma words_of_join_sp:
  assumes "\<forall>w \<in> set ws. CHR '' '' \<notin> set w"
  shows "words_of (join_sp ws) = filter (\<lambda>w. w \<noteq> []) ws"
proof (cases ws)
  case Nil
  then show ?thesis by (simp add: words_of_def)
next
  case (Cons a as)
  with assms show ?thesis by (simp add: words_of_def split_sp_join_sp)
qed

section \<open>The rows of \<open>createTextRows\<close>\<close>

lemma wrapWords_not_Nil: "wrapWords m c w ws rs p l \<noteq> []"
  by (induction ws arbitrary: rs p l) auto

text \<open>
  The invariant of the loop: the words of the rows pushed so far, then those of the line
  in hand, then the words to come, are the words of the whole text.
\<close>

lemma wrapWords_words:
  "\<forall>v \<in> set (l @ ws). CHR '' '' \<notin> set v \<Longrightarrow>
     concat (map (\<lambda>r. words_of (row_text r)) (wrapWords m c w ws rs p l))
       = concat (map (\<lambda>r. words_of (row_text r)) rs) @ filter (\<lambda>v. v \<noteq> []) (l @ ws)"
proof (induction ws arbitrary: rs p l)
  case Nil
  then show ?case by (simp add: words_of_join_sp)
next
  case (Cons word ws)
  have l: "\<forall>v \<in> set l. CHR '' '' \<notin> set v" using Cons.prems by simp
  have a: "\<forall>v \<in> set ([word] @ ws). CHR '' '' \<notin> set v" using Cons.prems by simp
  have b: "\<forall>v \<in> set ((l @ [word]) @ ws). CHR '' '' \<notin> set v" using Cons.prems by simp
  show ?case
  proof (cases "measureText m c (join_sp (p @ [word])) > w")
    case True
    then show ?thesis
      using Cons.IH [OF a, of "rs @ [\<lparr>row_text = join_sp l\<rparr>]" "[word]"]
      by (simp add: words_of_join_sp [OF l])
  next
    case False
    then show ?thesis
      using Cons.IH [OF b, of rs "p @ [word]"] by simp
  qed
qed

text \<open>
  The same invariant with the pieces of \<open>split(" ")\<close> as they are, empty ones too. It
  needs the line in hand to hold a piece at every push; the first push finds it empty when
  the first piece alone is wider than the canvas.
\<close>

lemma wrapWords_pieces:
  "ws \<noteq> [] \<or> l \<noteq> [] \<Longrightarrow> \<forall>v \<in> set (l @ ws). CHR '' '' \<notin> set v \<Longrightarrow>
     (l = [] \<longrightarrow> \<not> measureText m c (join_sp (p @ [hd ws])) > w) \<Longrightarrow>
     concat (map (\<lambda>r. split_sp (row_text r)) (wrapWords m c w ws rs p l))
       = concat (map (\<lambda>r. split_sp (row_text r)) rs) @ l @ ws"
proof (induction ws arbitrary: rs p l)
  case Nil
  then show ?case by (simp add: split_sp_join_sp)
next
  case (Cons word ws)
  show ?case
  proof (cases "measureText m c (join_sp (p @ [word])) > w")
    case True
    with Cons.prems have "l \<noteq> []" by auto
    with True Cons.prems
      Cons.IH [where rs = "rs @ [\<lparr>row_text = join_sp l\<rparr>]" and p = "[word]" and l = "[word]"]
    show ?thesis by (simp add: split_sp_join_sp)
  next
    case False
    with Cons.prems Cons.IH [where rs = rs and p = "p @ [word]" and l = "l @ [word]"]
    show ?thesis by simp
  qed
qed

text \<open>
  The rows already there stay as they are, in front of the rows a call pushes.
\<close>

lemma wrapWords_append:
  "wrapWords m c w ws rs p l = rs @ wrapWords m c w ws [] p l"
proof (induction ws arbitrary: rs p l)
  case Nil
  then show ?case by simp
next
  case (Cons word ws)
  show ?case
  proof (cases "measureText m c (join_sp (p @ [word])) > w")
    case True
    with Cons.IH [where rs = "rs @ [\<lparr>row_text = join_sp l\<rparr>]" and p = "[word]" and l = "[word]"]
      Cons.IH [where rs = "[\<lparr>row_text = join_sp l\<rparr>]" and p = "[word]" and l = "[word]"]
    show ?thesis by simp
  next
    case False
    with Cons.IH [where rs = rs and p = "p @ [word]" and l = "l @ [word]"]
    show ?thesis by simp
  qed
qed

text \<open>
  C4: for every text, every width and whatever rows the instance holds before, the rows
  that one run of the wrapping pushes come after the rows already there, and their words,
  taken row after row, are the words of the text: no word is dropped, doubled, split or
  moved. (A word is a non-empty piece between spaces.)
\<close>

theorem wrap_keeps_words:
  "\<exists>R. rows (createTextRows m c t) = rows t @ R \<and>
        concat (map (\<lambda>r. words_of (row_text r)) R) = words_of (gif_text t)"
proof -
  let ?R = "wrapWords m c (width t) (split_sp (gif_text t)) [] [] []"
  have a: "rows (createTextRows m c t) = rows t @ ?R"
    by (simp add: createTextRows_def wrapWords_append [of m c "width t" _ "rows t"])
  have ns: "\<forall>v \<in> set ([] @ split_sp (gif_text t)). CHR '' '' \<notin> set v"
    by (simp add: split_sp_no_space)
  from wrapWords_words [OF ns, of m c "width t" "[]" "[]"]
  have b: "concat (map (\<lambda>r. words_of (row_text r)) ?R) = words_of (gif_text t)"
    by (simp add: words_of_def)
  from a b show ?thesis by blast
qed

text \<open>
  On the example: a first layout gives two rows, and a second layout of the same text
  pushes two rows more, with the same words, behind them.
\<close>

theorem wrap_keeps_words_witness:
  "rows (createTextRows wideFont (createCanvas 100 50) (exampleGif ''A B C''))
     = [\<lparr>row_text = ''A B''\<rparr>, \<lparr>row_text = ''C''\<rparr>] \<and>
   (\<exists>R. rows (createTextRows wideFont (createCanvas 100 50)
              (createTextRows wideFont (createCanvas 100 50) (exampleGif ''A B C'')))
          = [\<lparr>row_text = ''A B''\<rparr>, \<lparr>row_text = ''C''\<rparr>] @ R \<and>
        concat (map (\<lambda>r. words_of (row_text r)) R) = [''A'', ''B'', ''C''])"
proof -
  let ?c = "createCanvas 100 50"
  let ?t1 = "createTextRows wideFont ?c (exampleGif ''A B C'')"
  have e: "rows ?t1 = [\<lparr>row_text = ''A B''\<rparr>, \<lparr>row_text = ''C''\<rparr>]"
    by (simp add: createTextRows_def exampleGif_def newTextOnGif_def measureText_def
          wideFont_def createCanvas_def)
  have w: "words_of (gif_text ?t1) = [''A'', ''B'', ''C'']"
    by (simp add: createTextRows_def exampleGif_def words_of_def)
  from wrap_keeps_words [of wideFont ?c ?t1] e w
  show ?thesis by simp
qed

text \<open>
  With the pieces of \<open>split(" ")\<close> as they are, empty ones of doubled spaces too, the same
  holds of the rows one run pushes whenever the first piece of the text is not wider than
  the canvas.
\<close>

lemma wrap_keeps_pieces:
  assumes "measureText m c (hd (split_sp (gif_text t))) \<le> width t"
  shows "concat (map (\<lambda>r. split_sp (row_text r))
           (wrapWords m c (width t) (split_sp (gif_text t)) [] [] []))
         = split_sp (gif_text t)"
proof -
  have ns: "\<forall>v \<in> set ([] @ split_sp (gif_text t)). CHR '' '' \<notin> set v"
    by (simp add: split_sp_no_space)
  have a: "split_sp (gif_text t) \<noteq> [] \<or> ([]::string list) \<noteq> []" by simp
  have b: "([]::string list) = [] \<longrightarrow>
      \<not> measureText m c (join_sp ([] @ [hd (split_sp (gif_text t))])) > width t"
    using assms by simp
  from wrapWords_pieces [OF a ns b, of "[]"]
  show ?thesis by simp
qed

text \<open>
  When the first piece is wider than the canvas, the rows start with an empty row.
\<close>

lemma leading_empty_row:
  "rows (createTextRows wideFont (createCanvas 100 50) (exampleGif ''Hello''))
     = [\<lparr>row_text = []\<rparr>, \<lparr>row_text = ''Hello''\<rparr>]"
  by (simp add: createTextRows_def exampleGif_def newTextOnGif_def measureText_def
        wideFont_def createCanvas_def)

text \<open>
  C9: after wrapping, the rows have at least one entry, whatever the text and whatever
  rows were there before; and for the empty text, on a canvas at least as wide as the
  empty string measures, the wrapping pushes exactly one row, with the empty string as its
  content.
\<close>

theorem rows_nonempty:
  "rows (createTextRows m c t) \<noteq> [] \<and>
   (gif_text t = [] \<and> measureText m c [] \<le> width t
      \<longrightarrow> rows (createTextRows m c t) = rows t @ [\<lparr>row_text = []\<rparr>])"
  by (auto simp: createTextRows_def wrapWords_not_Nil)

text \<open>
  On the example with the empty text: the first layout gives the one empty row, and a
  second layout pushes one empty row more.
\<close>

theorem rows_nonempty_witness:
  "gif_text (exampleGif []) = [] \<and>
   measureText wideFont (createCanvas 100 50) [] \<le> width (exampleGif []) \<and>
   rows (createTextRows wideFont (createCanvas 100 50) (exampleGif []))
     = [\<lparr>row_text = []\<rparr>] \<and>
   rows (createTextRows wideFont (createCanvas 100 50)
          (createTextRows wideFont (createCanvas 100 50) (exampleGif [])))
     = [\<lparr>row_text = []\<rparr>, \<lparr>row_text = []\<rparr>]"
proof -
  let ?c = "createCanvas 100 50"
  let ?t1 = "createTextRows wideFont ?c (exampleGif [])"
  have h: "gif_text (exampleGif []) = [] \<and> measureText wideFont ?c [] \<le> width (exampleGif [])"
    by (simp add: exampleGif_def measureText_def wideFont_def)
  have h1: "gif_text ?t1 = [] \<and> measureText wideFont ?c [] \<le> width ?t1"
    by (simp add: createTextRows_def exampleGif_def measureText_def wideFont_def)
  have r0: "rows (exampleGif []) = []"
    by (simp add: exampleGif_def newTextOnGif_def)
  from rows_nonempty [of wideFont ?c "exampleGif []"] h r0
  have a: "rows ?t1 = [\<lparr>row_text = []\<rparr>]" by simp
  from rows_nonempty [of wideFont ?c ?t1] h1 a
  have b: "rows (createTextRows wideFont ?c ?t1) = [\<lparr>row_text = []\<rparr>, \<lparr>row_text = []\<rparr>]"
    by simp
  from h a b show ?thesis by simp
qed

section \<open>The text step\<close>

lemma truncate_surface [simp]: "style.truncate (c\<lparr>surface := s\<rparr>) = style.truncate c"
  by (simp add: style.truncate_def)

lemma truncate_drawRow [simp]: "style.truncate (drawRow lh t c k) = style.truncate c"
  by (simp add: drawRow_def Let_def strokeText_def fillText_def)

lemma surface_drawRow:
  "surface (drawRow lh t c k) = surface c @
     rowCalls c (canvas_x (canvasOptions t))
       (row_text (rev (rows t) ! k),
        canvas_y (canvasOptions t) - real k * (lh + rowGap (textOptions t)))"
  by (simp add: drawRow_def Let_def strokeText_def fillText_def rowCalls_def)

lemma truncate_foldl_drawRow [simp]:
  "style.truncate (foldl (drawRow lh t) c ks) = style.truncate c"
  by (induction ks arbitrary: c) auto

lemma rowCalls_cong: "style.truncate c = style.truncate c' \<Longrightarrow> rowCalls c = rowCalls c'"
  by (simp add: rowCalls_def fun_eq_iff)

text \<open>The inner loop adds the two calls of every \<open>rowIndex\<close> it runs through.\<close>

lemma surface_foldl_drawRow:
  "surface (foldl (drawRow lh t) c ks) = surface c @
     concat (map (\<lambda>k. rowCalls c (canvas_x (canvasOptions t))
       (row_text (rev (rows t) ! k),
        canvas_y (canvasOptions t) - real k * (lh + rowGap (textOptions t)))) ks)"
proof (induction ks arbitrary: c)
  case Nil
  then show ?case by simp
next
  case (Cons k ks)
  have "rowCalls (drawRow lh t c k) = rowCalls c"
    by (rule rowCalls_cong) simp
  then show ?case by (simp add: Cons.IH surface_drawRow)
qed

lemma map_upt_enumerate:
  "map (\<lambda>k. f k (xs ! k)) [0..<length xs] = map (\<lambda>(k, x). f k x) (enumerate 0 xs)"
  by (rule nth_equalityI) (simp_all add: nth_enumerate_eq)

lemma surface_drawText:
  "surface (ctx (drawText lh L)) = surface (ctx L) @ drawnText lh L"
  by (simp add: drawnText_def drawText_def Let_def strokeText_def fillText_def
        surface_foldl_drawRow)

lemma drawnText_eq:
  "drawnText lh L =
     concat (map (rowCalls (ctx L) (canvas_x (canvasOptions (inst L))))
       (if length (rows (inst L)) = 1
        then [(gif_text (inst L), canvas_y (canvasOptions (inst L)))]
        else map (\<lambda>(k, r). (row_text r,
                    canvas_y (canvasOptions (inst L))
                      - real k * (lh + rowGap (textOptions (inst L)))))
               (enumerate 0 (rev (rows (inst L))))))"
proof (cases "length (rows (inst L)) = 1")
  case True
  then show ?thesis
    by (simp add: drawnText_def drawText_def Let_def strokeText_def fillText_def rowCalls_def)
next
  case False
  let ?R = "rowCalls (ctx L) (canvas_x (canvasOptions (inst L)))"
  let ?g = "\<lambda>k. (row_text (rev (rows (inst L)) ! k),
               canvas_y (canvasOptions (inst L)) - real k * (lh + rowGap (textOptions (inst L))))"
  let ?h = "\<lambda>(k, r). (row_text r,
               canvas_y (canvasOptions (inst L)) - real k * (lh + rowGap (textOptions (inst L))))"
  have E: "map ?g [0..<length (rev (rows (inst L)))] = map ?h (enumerate 0 (rev (rows (inst L))))"
    by (rule map_upt_enumerate)
  have "drawnText lh L = concat (map (\<lambda>k. ?R (?g k)) [0..<length (rows (inst L))])"
    using False by (simp add: drawnText_def drawText_def Let_def surface_foldl_drawRow)
  also have "\<dots> = concat (map ?R (map ?g [0..<length (rev (rows (inst L)))]))"
    by (simp add: comp_def)
  also have "\<dots> = concat (map ?R (map ?h (enumerate 0 (rev (rows (inst L))))))"
    by (simp only: E)
  finally show ?thesis using False by simp
qed

text \<open>
  C8: with more than one row, the rows are drawn in reverse order. The row at place \<open>k\<close>
  of the reversed rows is stroked and filled at the anchor's x and at the anchor's y less
  \<open>k\<close> times the sum of the line height and the row gap; so the first two calls draw the
  last row of the wrapped text at the anchor itself.
\<close>

theorem rows_drawn_in_reverse:
  "1 < length (rows (inst L)) \<Longrightarrow>
     drawnText lh L =
       concat (map (\<lambda>(k, r).
           [StrokeText (row_text r) (canvas_x (canvasOptions (inst L)))
              (canvas_y (canvasOptions (inst L)) - real k * (lh + rowGap (textOptions (inst L))))
              (style.truncate (ctx L)),
            FillText (row_text r) (canvas_x (canvasOptions (inst L)))
              (canvas_y (canvasOptions (inst L)) - real k * (lh + rowGap (textOptions (inst L))))
              (style.truncate (ctx L))])
         (enumerate 0 (rev (rows (inst L))))) \<and>
     take 2 (drawnText lh L) =
       [StrokeText (row_text (last (rows (inst L)))) (canvas_x (canvasOptions (inst L)))
          (canvas_y (canvasOptions (inst L))) (style.truncate (ctx L)),
        FillText (row_text (last (rows (inst L)))) (canvas_x (canvasOptions (inst L)))
          (canvas_y (canvasOptions (inst L))) (style.truncate (ctx L))]"
proof -
  assume n: "1 < length (rows (inst L))"
  then have ne: "rows (inst L) \<noteq> []" by auto
  then obtain r rs where rv: "rev (rows (inst L)) = r # rs"
    by (cases "rev (rows (inst L))") auto
  then have lr: "last (rows (inst L)) = r"
    by (metis last_rev list.sel(1) rev_rev_ident rev_is_Nil_conv ne)
  have d: "drawnText lh L =
       concat (map (\<lambda>(k, r).
           [StrokeText (row_text r) (canvas_x (canvasOptions (inst L)))
              (canvas_y (canvasOptions (inst L)) - real k * (lh + rowGap (textOptions (inst L))))
              (style.truncate (ctx L)),
            FillText (row_text r) (canvas_x (canvasOptions (inst L)))
              (canvas_y (canvasOptions (inst L)) - real k * (lh + rowGap (textOptions (inst L))))
              (style.truncate (ctx L))])
         (enumerate 0 (rev (rows (inst L)))))"
    using n by (simp add: drawnText_eq rowCalls_def comp_def case_prod_unfold)
  show ?thesis
    unfolding d by (simp add: rv lr)
qed

theorem rows_drawn_in_reverse_witness:
  "1 < length (rows (inst (snd (startRender wideFont (exampleGif ''A B C''))))) \<and>
   rows (inst (snd (startRender wideFont (exampleGif ''A B C''))))
     = [\<lparr>row_text = ''A B''\<rparr>, \<lparr>row_text = ''C''\<rparr>] \<and>
   canvas_y (canvasOptions (inst (snd (startRender wideFont (exampleGif ''A B C''))))) = 5 \<and>
   take 2 (drawnText 30 (snd (startRender wideFont (exampleGif ''A B C'')))) =
     [StrokeText ''C'' 50 5
        (style.truncate (ctx (snd (startRender wideFont (exampleGif ''A B C''))))),
      FillText ''C'' 50 5
        (style.truncate (ctx (snd (startRender wideFont (exampleGif ''A B C'')))))] \<and>
   drop 2 (drawnText 30 (snd (startRender wideFont (exampleGif ''A B C'')))) =
     [StrokeText ''A B'' 50 (- 30)
        (style.truncate (ctx (snd (startRender wideFont (exampleGif ''A B C''))))),
      FillText ''A B'' 50 (- 30)
        (style.truncate (ctx (snd (startRender wideFont (exampleGif ''A B C'')))))]"
proof -
  let ?L = "snd (startRender wideFont (exampleGif ''A B C''))"
  have r: "rows (inst ?L) = [\<lparr>row_text = ''A B''\<rparr>, \<lparr>row_text = ''C''\<rparr>]"
    by code_simp
  have n: "1 < length (rows (inst ?L))"
    by (simp add: r)
  have cx: "canvas_x (canvasOptions (inst ?L)) = 50" by code_simp
  have cy: "canvas_y (canvasOptions (inst ?L)) = 5" by code_simp
  have gap: "rowGap (textOptions (inst ?L)) = 5" by code_simp
  from rows_drawn_in_reverse [OF n, of 30] n r cy
  show ?thesis by (simp add: cx gap enumerate_eq_zip)
qed

section \<open>One turn of the frame loop\<close>

lemma ctx_ensureRows [simp]: "ctx (ensureRows m L) = ctx L"
  by (simp add: ensureRows_def)

lemma disposal_retainWriteback [simp]:
  "disposal (extractedFrames (inst (retainWriteback index L)) ! index)
     = disposal (extractedFrames (inst L) ! index)"
  by (cases "index < length (extractedFrames (inst L))")
     (simp_all add: retainWriteback_def Let_def not_less list_update_beyond)

lemma ctx_retainWriteback [simp]: "ctx (retainWriteback index L) = ctx L"
  by (simp add: retainWriteback_def Let_def)

lemma ctx_commitFrame [simp]: "ctx (commitFrame index L) = ctx L"
  by (simp add: commitFrame_def Let_def)

lemma surface_beforeText:
  "surface (ctx (beforeText m index L))
     = surface (ctx (paintFrame index (L\<lparr>inst := emit (FrameIndexUpdate index) (inst L)\<rparr>)))"
  by (simp add: beforeText_def setStyles_def Let_def)

lemma paintFrame_emit:
  "ctx (paintFrame index (L\<lparr>inst := emit e (inst L)\<rparr>)) = ctx (paintFrame index L)"
  by (simp add: paintFrame_def Let_def emit_def split: option.split)

text \<open>
  The restore step, given the snapshot of a state \<open>L1\<close>: the one way to fail is a
  disposal method that reads 2 where the snapshot is taken and something else where it is
  put back.
\<close>

lemma restoreBackground_eq:
  "restoreBackground index (withoutText index L1) L2 =
     (if disposal (extractedFrames (inst L2) ! index) = 2
      then Inr (L2\<lparr>ctx := clearRect (ctx L2)\<rparr>)
      else if disposal (extractedFrames (inst L1) ! index) = 2 then Inl TypeError
      else Inr (L2\<lparr>ctx := (ctx L2)\<lparr>surface := surface (ctx L1)\<rparr>\<rparr>))"
  by (simp add: restoreBackground_def withoutText_def getImageData_def)

lemma frameBody_eq:
  "frameBody m lh index L =
     Inr ((retainWriteback index (commitFrame index (drawText lh (beforeText m index L))))
        \<lparr>ctx := (ctx (drawText lh (beforeText m index L)))
           \<lparr>surface := (if disposal (extractedFrames (inst L) ! index) = 2 then []
                        else surface (ctx (beforeText m index L)))\<rparr>\<rparr>)"
  by (simp add: frameBody_def Let_def restoreBackground_eq clearRect_def)

text \<open>
  C1: a turn of the loop always comes to its end, and what \<open>getImageData\<close> would read
  from the surface then is the blank picture when the frame's disposal method is 2, and
  for every other disposal method the \<open>withoutText\<close> snapshot of that turn, which is the
  surface as it was before the text was drawn.
\<close>

theorem surface_after_frame:
  "map_sum id (\<lambda>L'. Some (getImageData (ctx L'))) (frameBody m lh index L)
     = Inr (if disposal (extractedFrames (inst L) ! index) = 2 then Some (ImageData [])
            else withoutText index (beforeText m index L)) \<and>
   map_sum id (\<lambda>L'. surface (ctx L')) (frameBody m lh index L)
     = Inr (if disposal (extractedFrames (inst L) ! index) = 2 then []
            else surface (ctx (beforeText m index L)))"
  by (simp add: frameBody_eq withoutText_def getImageData_def)

text \<open>
  Hence a surface that holds no text when a turn begins holds none when the turn ends, and
  the next frame is painted over pictures only. (\<open>retained\<close> is never set by the class.)
\<close>

lemma no_text_after_frame:
  assumes "\<not> retained (inst L)" and "list_all isPicture (surface (ctx L))"
  shows "map_sum id (\<lambda>L'. list_all isPicture (surface (ctx L'))) (frameBody m lh index L)
           = Inr True"
proof -
  have "list_all isPicture (surface (ctx (paintFrame index L)))"
    using assms
    by (cases "imageData (extractedFrames (inst L) ! index)")
       (simp_all add: paintFrame_def Let_def)
  then show ?thesis
    by (simp add: frameBody_eq surface_beforeText paintFrame_emit)
qed

text \<open>
  C10: in a turn of the loop the snapshot has a value exactly when the frame's disposal
  method is not 2; the disposal method read at the restore step, after the write-back, is
  the one read where the snapshot is taken; and the turn never fails, so the restore step
  never reads a snapshot without a value.
\<close>

theorem snapshot_set_when_read:
  "(withoutText index (beforeText m index L) \<noteq> None
      \<longleftrightarrow> disposal (extractedFrames (inst L) ! index) \<noteq> 2) \<and>
   disposal (extractedFrames
       (inst (retainWriteback index (commitFrame index (drawText lh (beforeText m index L)))))
       ! index)
     = disposal (extractedFrames (inst L) ! index) \<and>
   \<not> isl (frameBody m lh index L)"
  by (simp add: frameBody_eq withoutText_def)

lemma enc_drawText [simp]: "enc (drawText lh L) = enc L"
  by (simp add: drawText_def Let_def)

lemma enc_beforeText [simp]: "enc (beforeText m index L) = enc L"
  by (simp add: beforeText_def ensureRows_def setStyles_def paintFrame_def Let_def
        split: option.split)

lemma enc_retainWriteback [simp]: "enc (retainWriteback index L) = enc L"
  by (simp add: retainWriteback_def Let_def)

lemma inst_drawText [simp]: "inst (drawText lh L) = inst L"
  by (simp add: drawText_def Let_def)

lemma inst_commitFrame [simp]: "inst (commitFrame index L) = inst L"
  by (simp add: commitFrame_def Let_def)

lemma console_beforeText [simp]: "console (inst (beforeText m index L)) = console (inst L)"
  by (simp add: beforeText_def ensureRows_def setStyles_def paintFrame_def Let_def
        createTextRows_def emit_def split: option.split)

lemma retained_beforeText [simp]: "retained (inst (beforeText m index L)) = retained (inst L)"
  by (simp add: beforeText_def ensureRows_def setStyles_def paintFrame_def Let_def
        createTextRows_def emit_def split: option.split)

lemma emitted_beforeText [simp]:
  "emitted (inst (beforeText m index L)) = emitted (inst L) @ [FrameIndexUpdate index]"
  by (simp add: beforeText_def ensureRows_def setStyles_def paintFrame_def Let_def
        createTextRows_def emit_def split: option.split)

lemma console_retainWriteback [simp]:
  "console (inst (retainWriteback index L)) = console (inst L)"
  by (simp add: retainWriteback_def Let_def)

lemma retained_retainWriteback [simp]:
  "retained (inst (retainWriteback index L)) = retained (inst L)"
  by (simp add: retainWriteback_def Let_def)

lemma emitted_retainWriteback [simp]:
  "emitted (inst (retainWriteback index L)) = emitted (inst L)"
  by (simp add: retainWriteback_def Let_def)

lemma frames_retainWriteback:
  "\<exists>v. extractedFrames (inst (retainWriteback index L)) = (extractedFrames (inst L))[index := v]"
proof (cases "retain (textOptions (inst L))")
  case True
  then show ?thesis by (auto simp: retainWriteback_def Let_def)
next
  case False
  then have "extractedFrames (inst (retainWriteback index L))
      = (extractedFrames (inst L))[index := extractedFrames (inst L) ! index]"
    by (simp add: retainWriteback_def Let_def)
  then show ?thesis ..
qed

lemma painted_beforeText:
  "\<not> retained (inst L) \<Longrightarrow> imageData (extractedFrames (inst L) ! index) = Image p True \<Longrightarrow>
     surface (ctx (beforeText m index L)) = surface (ctx L) @ [DrawImage p]"
  by (simp add: beforeText_def setStyles_def paintFrame_def Let_def emit_def)

lemma paintFrame_fails:
  "(if \<not> retained (inst L)
    then drawImage (imageData (extractedFrames (inst L) ! index)) (ctx L)
    else putImageData (imageData (extractedFrames (inst L) ! index)) (ctx L)) = None
   \<Longrightarrow> paintFrame index L = L"
  by (simp add: paintFrame_def Let_def)

text \<open>What one turn of the loop leaves behind.\<close>

lemma frameBody_result:
  assumes "frameBody m lh index L = Inr L1"
  shows "calls (enc L1) = calls (enc L) @
           frameCalls (extractedFrames (inst L) ! index)
             (surface (ctx (beforeText m index L)) @ drawnText lh (beforeText m index L))"
    and "console (inst L1) = console (inst L)"
    and "retained (inst L1) = retained (inst L)"
    and "emitted (inst L1) = emitted (inst L) @ [FrameIndexUpdate index]"
    and "\<exists>v. extractedFrames (inst L1) = (extractedFrames (inst L))[index := v]"
proof -
  from assms have L1: "L1 =
     (retainWriteback index (commitFrame index (drawText lh (beforeText m index L))))
        \<lparr>ctx := (ctx (drawText lh (beforeText m index L)))
           \<lparr>surface := (if disposal (extractedFrames (inst L) ! index) = 2 then []
                        else surface (ctx (beforeText m index L)))\<rparr>\<rparr>"
    by (simp add: frameBody_eq)
  show "calls (enc L1) = calls (enc L) @
           frameCalls (extractedFrames (inst L) ! index)
             (surface (ctx (beforeText m index L)) @ drawnText lh (beforeText m index L))"
    by (simp add: L1 commitFrame_def Let_def call_def frameCalls_def surface_drawText)
  show "console (inst L1) = console (inst L)" by (simp add: L1)
  show "retained (inst L1) = retained (inst L)" by (simp add: L1)
  show "emitted (inst L1) = emitted (inst L) @ [FrameIndexUpdate index]" by (simp add: L1)
  from frames_retainWriteback [of index "commitFrame index (drawText lh (beforeText m index L))"]
  show "\<exists>v. extractedFrames (inst L1) = (extractedFrames (inst L))[index := v]"
    by (simp add: L1)
qed





section \<open>The whole render\<close>

text \<open>
  The loop from any \<open>index\<close> on: it comes to its end without an error; for every frame
  from \<open>index\<close> on, in the order of the store, the encoder is given the delay, the
  disposal method and a picture; nothing is written to the console; the index of every
  frame is emitted; and the picture of a frame that could be painted holds its image.
\<close>

lemma frameLoop_result:
  "\<exists>L' pics. frameLoop m lh index L = Inr L' \<and>
     length pics = length (extractedFrames (inst L)) - index \<and>
     calls (enc L') = calls (enc L) @
        concat (map2 frameCalls (drop index (extractedFrames (inst L))) pics) \<and>
     console (inst L') = console (inst L) \<and>
     emitted (inst L') = emitted (inst L) @
        map FrameIndexUpdate [index..<length (extractedFrames (inst L))] \<and>
     (\<forall>i p. i < length pics \<and> \<not> retained (inst L) \<and>
         imageData (extractedFrames (inst L) ! (index + i)) = Image p True
         \<longrightarrow> DrawImage p \<in> set (pics ! i))"
proof (induction m lh index L rule: frameLoop.induct)
  case (1 m lh index L)
  let ?fs = "extractedFrames (inst L)"
  show ?case
  proof (cases "index < length ?fs")
    case False
    then show ?thesis by (simp add: frameLoop.simps [of m lh index L])
  next
    case True
    obtain L1 where body: "frameBody m lh index L = Inr L1"
      by (simp add: frameBody_eq)
    note r = frameBody_result [OF body]
    from r(5) obtain v where fs1: "extractedFrames (inst L1) = ?fs[index := v]" ..
    from "1.IH" [OF True body] obtain L' pics where
      loop: "frameLoop m lh (index + 1) L1 = Inr L'" and
      len: "length pics = length (extractedFrames (inst L1)) - (index + 1)" and
      cl: "calls (enc L') = calls (enc L1) @
             concat (map2 frameCalls (drop (index + 1) (extractedFrames (inst L1))) pics)" and
      co: "console (inst L') = console (inst L1)" and
      em: "emitted (inst L') = emitted (inst L1) @
             map FrameIndexUpdate [index + 1..<length (extractedFrames (inst L1))]" and
      pic: "\<forall>i p. i < length pics \<and> \<not> retained (inst L1) \<and>
               imageData (extractedFrames (inst L1) ! (index + 1 + i)) = Image p True
               \<longrightarrow> DrawImage p \<in> set (pics ! i)"
      by blast
    let ?p0 = "surface (ctx (beforeText m index L)) @ drawnText lh (beforeText m index L)"
    have dr: "drop (index + 1) (extractedFrames (inst L1)) = drop (index + 1) ?fs"
      by (simp add: fs1 drop_update_cancel)
    have dr0: "drop index ?fs = (?fs ! index) # drop (index + 1) ?fs"
      using True by (simp add: Cons_nth_drop_Suc)
    have a: "frameLoop m lh index L = Inr L'"
      using True body loop by (simp add: frameLoop.simps [of m lh index L])
    have b: "length (?p0 # pics) = length ?fs - index"
      using True len by (simp add: fs1)
    have c: "calls (enc L') = calls (enc L) @
        concat (map2 frameCalls (drop index ?fs) (?p0 # pics))"
      using dr dr0 by (simp add: cl r(1))
    have d: "console (inst L') = console (inst L)"
      by (simp add: co r(2))
    have e: "emitted (inst L') = emitted (inst L) @ map FrameIndexUpdate [index..<length ?fs]"
      using True by (simp add: em r(4) fs1 upt_conv_Cons)
    have f: "\<forall>i p. i < length (?p0 # pics) \<and> \<not> retained (inst L) \<and>
         imageData (?fs ! (index + i)) = Image p True
         \<longrightarrow> DrawImage p \<in> set ((?p0 # pics) ! i)"
    proof (intro allI impI)
      fix i p
      assume h: "i < length (?p0 # pics) \<and> \<not> retained (inst L) \<and>
         imageData (?fs ! (index + i)) = Image p True"
      show "DrawImage p \<in> set ((?p0 # pics) ! i)"
      proof (cases i)
        case 0
        with h show ?thesis by (simp add: painted_beforeText)
      next
        case (Suc j)
        with h have "j < length pics \<and> \<not> retained (inst L1) \<and>
            imageData (extractedFrames (inst L1) ! (index + 1 + j)) = Image p True"
          by (simp add: r(3) fs1)
        with pic have "DrawImage p \<in> set (pics ! j)" by blast
        with Suc show ?thesis by simp
      qed
    qed
    from a b c d e f show ?thesis by blast
  qed
qed


lemma alignX_fields [simp]:
  "extractedFrames (alignX t) = extractedFrames t"
  "console (alignX t) = console t"
  "emitted (alignX t) = emitted t"
  "retained (alignX t) = retained t"
  "rows (alignX t) = rows t"
  by (simp_all add: alignX_def Let_def split: option.split alignmentXOptions.split)

lemma alignY_fields [simp]:
  "extractedFrames (alignY lh t) = extractedFrames t"
  "console (alignY lh t) = console t"
  "emitted (alignY lh t) = emitted t"
  "retained (alignY lh t) = retained t"
  "rows (alignY lh t) = rows t"
  by (simp_all add: alignY_def Let_def split: option.split alignmentYOptions.split)

lemma createTextRows_fields [simp]:
  "extractedFrames (createTextRows m c t) = extractedFrames t"
  "console (createTextRows m c t) = console t"
  "emitted (createTextRows m c t) = emitted t"
  "retained (createTextRows m c t) = retained t"
  by (simp_all add: createTextRows_def)

lemma startRender_fields:
  "extractedFrames (inst (snd (startRender m t))) = extractedFrames t"
  "console (inst (snd (startRender m t))) = console t"
  "emitted (inst (snd (startRender m t))) = emitted t"
  "retained (inst (snd (startRender m t))) = retained t"
  "calls (enc (snd (startRender m t))) =
     (if transparent (textOptions t) then [SetTransparent True] else []) @
     [SetRepeat (repeat (textOptions t)), Start]"
  by (simp_all add: startRender_def Let_def call_def GIFEncoder_def)

lemma encodeFrames_result:
  "\<exists>L pics. encodeFrames m t = Inr L \<and>
     length pics = length (extractedFrames t) \<and>
     calls (enc L) =
       (if transparent (textOptions t) then [SetTransparent True] else []) @
       [SetRepeat (repeat (textOptions t)), Start] @
       concat (map2 frameCalls (extractedFrames t) pics) @ [Finish] \<and>
     console (inst L) = console t \<and>
     emitted (inst L) = emitted t @ map FrameIndexUpdate [0..<length (extractedFrames t)] \<and>
     (\<forall>i p. i < length pics \<and> \<not> retained t \<and>
         imageData (extractedFrames t ! i) = Image p True
         \<longrightarrow> DrawImage p \<in> set (pics ! i))"
proof -
  obtain lh L0 where s: "startRender m t = (lh, L0)" by (cases "startRender m t")
  then have L0: "L0 = snd (startRender m t)" by simp
  from frameLoop_result [of m lh 0 L0] obtain L' pics where
    loop: "frameLoop m lh 0 L0 = Inr L'" and
    len: "length pics = length (extractedFrames (inst L0)) - 0" and
    cl: "calls (enc L') = calls (enc L0) @
           concat (map2 frameCalls (drop 0 (extractedFrames (inst L0))) pics)" and
    co: "console (inst L') = console (inst L0)" and
    em: "emitted (inst L') = emitted (inst L0) @
           map FrameIndexUpdate [0..<length (extractedFrames (inst L0))]" and
    pic: "\<forall>i p. i < length pics \<and> \<not> retained (inst L0) \<and>
             imageData (extractedFrames (inst L0) ! (0 + i)) = Image p True
             \<longrightarrow> DrawImage p \<in> set (pics ! i)"
    by blast
  let ?L = "L'\<lparr>enc := call Finish (enc L')\<rparr>"
  have a: "encodeFrames m t = Inr ?L"
    by (simp add: encodeFrames_def s loop)
  have b: "length pics = length (extractedFrames t)"
    using len by (simp add: L0 startRender_fields)
  have c: "calls (enc ?L) =
       (if transparent (textOptions t) then [SetTransparent True] else []) @
       [SetRepeat (repeat (textOptions t)), Start] @
       concat (map2 frameCalls (extractedFrames t) pics) @ [Finish]"
    using cl by (simp add: L0 startRender_fields call_def)
  have d: "console (inst ?L) = console t"
    using co by (simp add: L0 startRender_fields)
  have e: "emitted (inst ?L) = emitted t @ map FrameIndexUpdate [0..<length (extractedFrames t)]"
    using em by (simp add: L0 startRender_fields)
  have f: "\<forall>i p. i < length pics \<and> \<not> retained t \<and>
         imageData (extractedFrames t ! i) = Image p True
         \<longrightarrow> DrawImage p \<in> set (pics ! i)"
    using pic by (simp add: L0 startRender_fields)
  from a b c d e f show ?thesis by blast
qed

text \<open>
  C2: whatever the frame store, the encoder is started, then given for every stored frame,
  in the order of the store, the frame's delay, its disposal method and then its picture,
  and \<open>finish\<close> is the last call and is made once. The picture of a frame whose image
  loaded holds that image.
\<close>

theorem frames_encoded_in_order:
  "\<exists>pics. length pics = length (extractedFrames t) \<and>
     map_sum id (\<lambda>L. calls (enc L)) (encodeFrames m t) =
       Inr ((if transparent (textOptions t) then [SetTransparent True] else []) @
            [SetRepeat (repeat (textOptions t)), Start] @
            concat (map2 (\<lambda>f p. [SetDelay (delay f), SetDispose (disposal f), AddFrame p])
                      (extractedFrames t) pics) @
            [Finish]) \<and>
     (\<forall>i p. i < length pics \<and> \<not> retained t \<and>
         imageData (extractedFrames t ! i) = Image p True
         \<longrightarrow> DrawImage p \<in> set (pics ! i))"
proof -
  from encodeFrames_result [of m t] obtain L pics where
    a: "encodeFrames m t = Inr L" and
    b: "length pics = length (extractedFrames t)" and
    c: "calls (enc L) =
       (if transparent (textOptions t) then [SetTransparent True] else []) @
       [SetRepeat (repeat (textOptions t)), Start] @
       concat (map2 frameCalls (extractedFrames t) pics) @ [Finish]" and
    f: "\<forall>i p. i < length pics \<and> \<not> retained t \<and>
         imageData (extractedFrames t ! i) = Image p True
         \<longrightarrow> DrawImage p \<in> set (pics ! i)"
    by blast
  have fc: "frameCalls = (\<lambda>f p. [SetDelay (delay f), SetDispose (disposal f), AddFrame p])"
    by (simp add: fun_eq_iff frameCalls_def)
  from a b c f show ?thesis unfolding fc by auto
qed

theorem frames_encoded_in_order_witness:
  "\<exists>pics. length pics = 3 \<and>
     map_sum id (\<lambda>L. calls (enc L)) (encodeFrames wideFont (exampleGif ''Hi'')) =
       Inr ([SetRepeat 0, Start,
             SetDelay 100, SetDispose 1, AddFrame (pics ! 0),
             SetDelay 150, SetDispose 2, AddFrame (pics ! 1),
             SetDelay 100, SetDispose 1, AddFrame (pics ! 2),
             Finish]) \<and>
     DrawImage 0 \<in> set (pics ! 0) \<and> DrawImage 1 \<in> set (pics ! 1)"
proof -
  let ?t = "exampleGif ''Hi''"
  from frames_encoded_in_order [of ?t wideFont] obtain pics where
    len: "length pics = length (extractedFrames ?t)" and
    cl: "map_sum id (\<lambda>L. calls (enc L)) (encodeFrames wideFont ?t) =
       Inr ((if transparent (textOptions ?t) then [SetTransparent True] else []) @
            [SetRepeat (repeat (textOptions ?t)), Start] @
            concat (map2 (\<lambda>f p. [SetDelay (delay f), SetDispose (disposal f), AddFrame p])
                      (extractedFrames ?t) pics) @
            [Finish])" and
    pic: "\<forall>i p. i < length pics \<and> \<not> retained ?t \<and>
         imageData (extractedFrames ?t ! i) = Image p True
         \<longrightarrow> DrawImage p \<in> set (pics ! i)"
    by (elim exE conjE)
  have fs: "extractedFrames ?t = threeFrames"
    by (simp add: exampleGif_def)
  have len3: "length pics = 3"
    using len by (simp add: fs threeFrames_def)
  then obtain p0 p1 p2 where ps: "pics = [p0, p1, p2]"
    by (cases pics; simp; rename_tac a as; case_tac as; simp; rename_tac b bs; case_tac bs; simp)
  have nr: "\<not> retained ?t"
    by (simp add: exampleGif_def newTextOnGif_def)
  have i0: "imageData (extractedFrames ?t ! 0) = Image 0 True"
    by (simp add: fs threeFrames_def)
  have i1: "imageData (extractedFrames ?t ! 1) = Image 1 True"
    by (simp add: fs threeFrames_def)
  from pic len3 nr i0 have d0: "DrawImage 0 \<in> set (pics ! 0)" by simp
  from pic len3 nr i1 have d1: "DrawImage 1 \<in> set (pics ! 1)" by simp
  have "map_sum id (\<lambda>L. calls (enc L)) (encodeFrames wideFont ?t) =
       Inr ([SetRepeat 0, Start,
             SetDelay 100, SetDispose 1, AddFrame (pics ! 0),
             SetDelay 150, SetDispose 2, AddFrame (pics ! 1),
             SetDelay 100, SetDispose 1, AddFrame (pics ! 2),
             Finish])"
    using cl by (simp add: ps fs threeFrames_def exampleGif_def newTextOnGif_def
          defaultTextOptions_def)
  with len3 d0 d1 show ?thesis by blast
qed

lemma renderGIF_result:
  "\<exists>L. encodeFrames m t = Inr L \<and>
     renderGIF m g t = Inr (emit Finished ((inst L)\<lparr>buffer := g (enc L)\<rparr>))"
proof -
  from encodeFrames_result [of m t] obtain L where "encodeFrames m t = Inr L" by blast
  then show ?thesis by (simp add: renderGIF_def)
qed

lemma renderGIF_log:
  "map_sum id (\<lambda>t'. (console t', emitted t')) (renderGIF m g t) =
     Inr (console t,
          emitted t @ map FrameIndexUpdate [0..<length (extractedFrames t)] @ [Finished])"
proof -
  from encodeFrames_result [of m t] obtain L where
    a: "encodeFrames m t = Inr L" and
    d: "console (inst L) = console t" and
    e: "emitted (inst L) = emitted t @ map FrameIndexUpdate [0..<length (extractedFrames t)]"
    by blast
  then show ?thesis by (simp add: renderGIF_def emit_def)
qed


lemma framesFed_frameCalls:
  "length fs = length pics \<Longrightarrow>
     concat (map (\<lambda>k. case k of AddFrame p \<Rightarrow> [p] | _ \<Rightarrow> []) (concat (map2 frameCalls fs pics)))
       = pics"
  by (induction fs pics rule: list_induct2) (simp_all add: frameCalls_def)

lemma encodeFrames_framesFed:
  "map_sum id (\<lambda>L. length (framesFed (enc L))) (encodeFrames m t)
     = Inr (length (extractedFrames t))"
proof -
  from encodeFrames_result [of m t] obtain L pics where
    a: "encodeFrames m t = Inr L" and
    b: "length pics = length (extractedFrames t)" and
    c: "calls (enc L) =
       (if transparent (textOptions t) then [SetTransparent True] else []) @
       [SetRepeat (repeat (textOptions t)), Start] @
       concat (map2 frameCalls (extractedFrames t) pics) @ [Finish]"
    by blast
  from b have "framesFed (enc L) = pics"
    by (simp add: framesFed_def c framesFed_frameCalls)
  with a b show ?thesis by simp
qed

text \<open>
  C6, as the claim is written, fails: a failure to paint is not logged. In the example the
  picture of the third frame cannot be drawn, and after the render nothing has been
  written to the console.
\<close>

theorem paint_failure_not_logged:
  "\<not> retained (exampleGif ''Hi'') \<and>
   drawImage (imageData (extractedFrames (exampleGif ''Hi'') ! 2)) (createCanvas 100 50) = None \<and>
   map_sum id console (renderGIF wideFont someData (exampleGif ''Hi'')) = Inr []"
  by code_simp

text \<open>
  C6, amended: when the painting of a frame's picture throws, the throw is swallowed
  without a trace (no variable changes, nothing is logged); the turn goes on with the
  surface as it stood, and the encoder is given the frame's delay, its disposal method and
  that surface with the text drawn on it. Whatever the frames, every stored frame is
  handed to the encoder, the render ends without an error with the index of every frame
  and the end of the render emitted, and the console is as it was.
\<close>

theorem paint_failure_contained:
  "((if \<not> retained (inst L)
     then drawImage (imageData (extractedFrames (inst L) ! index)) (ctx L)
     else putImageData (imageData (extractedFrames (inst L) ! index)) (ctx L)) = None
    \<longrightarrow> paintFrame index L = L \<and>
        map_sum id (\<lambda>L'. (console (inst L'), calls (enc L'))) (frameBody m lh index L) =
          Inr (console (inst L),
               calls (enc L) @
                 [SetDelay (delay (extractedFrames (inst L) ! index)),
                  SetDispose (disposal (extractedFrames (inst L) ! index)),
                  AddFrame (surface (ctx L) @ drawnText lh (beforeText m index L))])) \<and>
   map_sum id (\<lambda>L'. length (framesFed (enc L'))) (encodeFrames m t)
     = Inr (length (extractedFrames t)) \<and>
   map_sum id (\<lambda>t'. (console t', emitted t')) (renderGIF m g t) =
     Inr (console t,
          emitted t @ map FrameIndexUpdate [0..<length (extractedFrames t)] @ [Finished])"
proof (intro conjI impI)
  assume f: "(if \<not> retained (inst L)
     then drawImage (imageData (extractedFrames (inst L) ! index)) (ctx L)
     else putImageData (imageData (extractedFrames (inst L) ! index)) (ctx L)) = None"
  show p: "paintFrame index L = L" by (rule paintFrame_fails [OF f])
  obtain L1 where body: "frameBody m lh index L = Inr L1"
    by (simp add: frameBody_eq)
  have s: "surface (ctx (beforeText m index L)) = surface (ctx L)"
    by (simp add: surface_beforeText paintFrame_emit p)
  from frameBody_result(1,2) [OF body] s
  show "map_sum id (\<lambda>L'. (console (inst L'), calls (enc L'))) (frameBody m lh index L) =
          Inr (console (inst L),
               calls (enc L) @
                 [SetDelay (delay (extractedFrames (inst L) ! index)),
                  SetDispose (disposal (extractedFrames (inst L) ! index)),
                  AddFrame (surface (ctx L) @ drawnText lh (beforeText m index L))])"
    by (simp add: body frameCalls_def)
next
  show "map_sum id (\<lambda>L'. length (framesFed (enc L'))) (encodeFrames m t)
     = Inr (length (extractedFrames t))"
    by (rule encodeFrames_framesFed)
next
  show "map_sum id (\<lambda>t'. (console t', emitted t')) (renderGIF m g t) =
     Inr (console t,
          emitted t @ map FrameIndexUpdate [0..<length (extractedFrames t)] @ [Finished])"
    by (rule renderGIF_log)
qed

theorem paint_failure_contained_witness:
  "(if \<not> retained (inst (snd (startRender wideFont (exampleGif ''Hi''))))
    then drawImage
           (imageData (extractedFrames (inst (snd (startRender wideFont (exampleGif ''Hi'')))) ! 2))
           (ctx (snd (startRender wideFont (exampleGif ''Hi''))))
    else putImageData
           (imageData (extractedFrames (inst (snd (startRender wideFont (exampleGif ''Hi'')))) ! 2))
           (ctx (snd (startRender wideFont (exampleGif ''Hi''))))) = None \<and>
   paintFrame 2 (snd (startRender wideFont (exampleGif ''Hi'')))
     = snd (startRender wideFont (exampleGif ''Hi'')) \<and>
   map_sum id (\<lambda>L'. length (framesFed (enc L'))) (encodeFrames wideFont (exampleGif ''Hi''))
     = Inr 3 \<and>
   map_sum id (\<lambda>t'. (console t', emitted t')) (renderGIF wideFont someData (exampleGif ''Hi''))
     = Inr ([], [FrameIndexUpdate 0, FrameIndexUpdate 1, FrameIndexUpdate 2, Finished])"
proof -
  let ?t = "exampleGif ''Hi''"
  let ?L = "snd (startRender wideFont ?t)"
  have h: "(if \<not> retained (inst ?L)
    then drawImage (imageData (extractedFrames (inst ?L) ! 2)) (ctx ?L)
    else putImageData (imageData (extractedFrames (inst ?L) ! 2)) (ctx ?L)) = None"
    by code_simp
  have n: "length (extractedFrames ?t) = 3"
    by (simp add: exampleGif_def threeFrames_def)
  have u: "[0..<3] = [0, 1, 2]"
    by (simp add: upt_rec)
  have c: "console ?t = []" "emitted ?t = []"
    by (simp_all add: exampleGif_def newTextOnGif_def)
  from paint_failure_contained [of ?L 2 wideFont 30 ?t someData] h
  show ?thesis by (simp add: n u c)
qed

text \<open>
  For an encoder that yields data whatever it was given, the buffer is there after every
  render: \<open>toFile\<close> does not raise its error, and \<open>toBuffer\<close> returns a buffer.
\<close>

lemma output_with_data:
  assumes "\<And>e. g e \<noteq> None"
  shows "toFile m g filePath t \<noteq> Inl ResultEmpty"
    and "\<exists>b t'. toBuffer m g t = Inr (Some b, t')"
proof -
  from renderGIF_result [of m t g] obtain L where
    "encodeFrames m t = Inr L" and
    r: "renderGIF m g t = Inr (emit Finished ((inst L)\<lparr>buffer := g (enc L)\<rparr>))"
    by (elim exE conjE)
  from assms [of "enc L"] obtain b where b: "g (enc L) = Some b"
    by (cases "g (enc L)") simp_all
  show "toFile m g filePath t \<noteq> Inl ResultEmpty"
    by (simp add: toFile_def r b emit_def)
  show "\<exists>b t'. toBuffer m g t = Inr (Some b, t')"
    by (simp add: toBuffer_def r b emit_def)
qed

text \<open>
  C3 against the code, on the example with the text \<open>"Hi"\<close>: the first render lays out
  one row and draws the text once in the first frame; the second render, of the same
  instance with nothing changed, finds that row still there, pushes the row again, and
  draws two rows from another anchor. The encoder is given other pictures.
\<close>

theorem second_render_differs:
  "map_sum id (\<lambda>L. (rows (inst L), hd (framesFed (enc L))))
       (encodeFrames wideFont (exampleGif ''Hi'')) =
     Inr ([\<lparr>row_text = ''Hi''\<rparr>],
          [DrawImage 0,
           StrokeText ''Hi'' 50 40
             \<lparr> strokeStyle = ''transparent'', lineWidth = 1, font = ''32px calibri'',
               fillStyle = ''white'', textAlign = ''center'', textBaseline = ''bottom'' \<rparr>,
           FillText ''Hi'' 50 40
             \<lparr> strokeStyle = ''transparent'', lineWidth = 1, font = ''32px calibri'',
               fillStyle = ''white'', textAlign = ''center'', textBaseline = ''bottom'' \<rparr>]) \<and>
   map_sum id (\<lambda>L. (rows (inst L), hd (framesFed (enc L))))
       (secondRender wideFont someData (exampleGif ''Hi'')) =
     Inr ([\<lparr>row_text = ''Hi''\<rparr>, \<lparr>row_text = ''Hi''\<rparr>],
          [DrawImage 0,
           StrokeText ''Hi'' 50 5
             \<lparr> strokeStyle = ''transparent'', lineWidth = 1, font = ''32px calibri'',
               fillStyle = ''white'', textAlign = ''center'', textBaseline = ''bottom'' \<rparr>,
           FillText ''Hi'' 50 5
             \<lparr> strokeStyle = ''transparent'', lineWidth = 1, font = ''32px calibri'',
               fillStyle = ''white'', textAlign = ''center'', textBaseline = ''bottom'' \<rparr>,
           StrokeText ''Hi'' 50 (- 30)
             \<lparr> strokeStyle = ''transparent'', lineWidth = 1, font = ''32px calibri'',
               fillStyle = ''white'', textAlign = ''center'', textBaseline = ''bottom'' \<rparr>,
           FillText ''Hi'' 50 (- 30)
             \<lparr> strokeStyle = ''transparent'', lineWidth = 1, font = ''32px calibri'',
               fillStyle = ''white'', textAlign = ''center'', textBaseline = ''bottom'' \<rparr>])"
  by code_simp

end
